theory Spec2Isabelle
  imports Complex_Main "HOL-Library.AList"
begin

section \<open>Data model\<close>

text \<open>
  Python numbers (\<open>int\<close> and \<open>float\<close>) are idealised as \<open>real\<close>; counters and list
  lengths are \<open>int\<close>. A value that may be a number, a string sentinel or \<open>None\<close> (an
  indicator sample, an exit indicator) is a \<open>pyval\<close>; \<open>isinstance(v, (int, float))\<close>
  is the case \<open>PNum\<close>.
\<close>

datatype pyval = PNone | PNum real | PStr string

text \<open>\<open>v or 0\<close>: a falsy value (\<open>None\<close>, zero, the empty string) becomes \<open>0\<close>.\<close>

fun or_zero :: "pyval \<Rightarrow> pyval" where
  "or_zero PNone = PNum 0"
| "or_zero (PNum r) = PNum r"
| "or_zero (PStr t) = (if t = [] then PNum 0 else PStr t)"

text \<open>
  Text built by an f-string is kept symbolic: literal pieces, a number printed by
  \<open>str\<close>, a number printed with \<open>:.2f\<close>, or a value passed through unformatted.
\<close>

datatype ftext = Lit string | FmtNum real | Fmt2f real | Join ftext ftext | OfVal pyval

datatype error = TypeError | ZeroDivisionError

text \<open>\<open>str.lower\<close> on the characters that can produce an ASCII letter.\<close>

definition lower_char :: "char \<Rightarrow> char" where
  "lower_char c =
     (let n = (of_char c :: nat) in if 65 \<le> n \<and> n \<le> 90 then char_of (n + 32) else c)"

definition lower :: "string \<Rightarrow> string" where
  "lower t = map lower_char t"

subsection \<open>config.py\<close>

record config =
  RSI_HOT_COIN_THRESHOLD :: real
  MAX_OPEN_TRADES :: int
  LEVERAGE :: real
  TRADE_CLOSE_RSI :: real
  LOSS_TRADES_LIMIT_24H :: int
  GLOBAL_PAUSE_DURATION_HOURS :: real
  TRADE_AMOUNT_TYPE :: string
  TRADE_AMOUNT_FIXED_USDT :: real
  TRADE_AMOUNT_PERCENTAGE :: real
  TAKE_PROFIT_PERCENT :: real
  DEFAULT_COOLDOWN_PERIOD :: real

definition default_config :: config where
  "default_config =
     \<lparr> RSI_HOT_COIN_THRESHOLD = 10, MAX_OPEN_TRADES = 10, LEVERAGE = 2,
       TRADE_CLOSE_RSI = 65, LOSS_TRADES_LIMIT_24H = 1, GLOBAL_PAUSE_DURATION_HOURS = 24,
       TRADE_AMOUNT_TYPE = ''fixed_usdt'', TRADE_AMOUNT_FIXED_USDT = 3,
       TRADE_AMOUNT_PERCENTAGE = 10, TAKE_PROFIT_PERCENT = 10,
       DEFAULT_COOLDOWN_PERIOD = 172800 \<rparr>"

subsection \<open>StateManager fields\<close>

record coin =
  symbol :: string
  price :: real
  change_24h :: real
  high_24h :: real

record trade =
  alert_num :: int
  entry_price :: real
  entry_time :: real
  entry_rsi :: pyval
  trade_amount :: real
  leverage :: real
  pnl_percent :: real
  pnl_usdt :: real
  source :: string
  max_neg_pnl_pct :: real
  max_neg_pnl_usdt :: real
  max_neg_rsi :: real

record control_flags =
  websocket_enabled :: bool
  rsi_enabled :: bool
  trading_enabled :: bool
  email_enabled :: bool
  monitor_all_coins :: bool
  global_pause_active :: bool
  trade_execution_enabled :: bool

record stats =
  global_profit_usdt :: real
  global_loss_usdt :: real
  profitable_trades :: int
  loss_trades :: int

text \<open>
  The events put on the bus by \<open>event_bus.publish\<close>, with their payloads:
  \<open>TRADE_CLOSED\<close> carries the popped trade, the reason, the close price, the exit
  indicator and the new balance; \<open>ADD_TO_COOLDOWN\<close> carries symbol, reason and end time.
\<close>

datatype event =
    TRADE_OPENED trade
  | TRADE_CLOSED trade ftext real pyval real
  | ADD_TO_COOLDOWN string ftext real
  | STATS_UPDATED
  | PORTFOLIO_UPDATED
  | GLOBAL_PAUSE_TRIGGERED nat
  | GLOBAL_PAUSE_LIFTED

text \<open>
  The dictionaries are association lists in insertion order (\<open>AList.update\<close> replaces a
  key in place or appends it, \<open>AList.delete\<close> removes it). An alert-log line holds the
  instant whose clock time the source prints, the headline and the message. \<open>events\<close>
  is the queue of the event bus, oldest first; \<open>timers\<close> holds the delays, in seconds,
  of the \<open>threading.Timer\<close>s started for \<open>lift_global_pause\<close>. The clock is an argument
  \<open>now\<close> of every operation that reads it.
\<close>

record state =
  coin_data :: "(string \<times> coin) list"
  rsi_data :: "(string \<times> pyval) list"
  active_trades :: "(string \<times> trade) list"
  cooldowned_coins :: "(string \<times> ftext \<times> real) list"
  balance :: real
  global_stats :: stats
  controls :: control_flags
  alert_log :: "(real \<times> string \<times> ftext) list"
  last_trade_execution_time :: real
  events :: "event list"
  timers :: "real list"

text \<open>\<open>StateManager.__init__\<close> followed by \<open>_initialize_controls\<close>.\<close>

definition init_state :: state where
  "init_state =
     \<lparr> coin_data = [], rsi_data = [], active_trades = [], cooldowned_coins = [],
       balance = 0,
       global_stats = \<lparr> global_profit_usdt = 0, global_loss_usdt = 0,
                        profitable_trades = 0, loss_trades = 0 \<rparr>,
       controls = \<lparr> websocket_enabled = True, rsi_enabled = True, trading_enabled = False,
                    email_enabled = False, monitor_all_coins = True,
                    global_pause_active = False, trade_execution_enabled = False \<rparr>,
       alert_log = [], last_trade_execution_time = 0, events = [], timers = [] \<rparr>"

definition publish :: "event \<Rightarrow> state \<Rightarrow> state" where
  "publish e s = s\<lparr>events := events s @ [e]\<rparr>"

section \<open>StateManager operations\<close>

definition add_alert_log :: "real \<Rightarrow> string \<Rightarrow> ftext \<Rightarrow> state \<Rightarrow> state" where
  "add_alert_log now headline message s =
     s\<lparr>alert_log := take 50 ((now, headline, message) # alert_log s)\<rparr>"

definition can_open_new_trade :: "config \<Rightarrow> real \<Rightarrow> state \<Rightarrow> bool" where
  "can_open_new_trade cfg now s \<longleftrightarrow>
     trade_execution_enabled (controls s) \<and>
     \<not> global_pause_active (controls s) \<and>
     int (length (active_trades s)) < MAX_OPEN_TRADES cfg \<and>
     now - last_trade_execution_time s > 10"

text \<open>The trade amount \<open>open_trade\<close> uses when the caller passes none.\<close>

definition resolve_amount :: "config \<Rightarrow> real option \<Rightarrow> state \<Rightarrow> real" where
  "resolve_amount cfg amount s =
     (case amount of
        Some a \<Rightarrow> a
      | None \<Rightarrow>
          if TRADE_AMOUNT_TYPE cfg = ''percentage''
          then (balance s * TRADE_AMOUNT_PERCENTAGE cfg) / 100
          else TRADE_AMOUNT_FIXED_USDT cfg)"

definition new_trade :: "config \<Rightarrow> real \<Rightarrow> real \<Rightarrow> pyval \<Rightarrow> string \<Rightarrow> int \<Rightarrow> real \<Rightarrow> trade" where
  "new_trade cfg now entry rsi_value src alert_number amt =
     \<lparr> alert_num = alert_number, entry_price = entry, entry_time = now,
       entry_rsi = rsi_value, trade_amount = amt, leverage = LEVERAGE cfg,
       pnl_percent = 0, pnl_usdt = 0, source = src,
       max_neg_pnl_pct = 0, max_neg_pnl_usdt = 0,
       max_neg_rsi = (case rsi_value of PNum r \<Rightarrow> r | _ \<Rightarrow> 0) \<rparr>"

definition open_trade ::
  "config \<Rightarrow> real \<Rightarrow> string \<Rightarrow> real \<Rightarrow> pyval \<Rightarrow> pyval \<Rightarrow> string \<Rightarrow> int \<Rightarrow> ftext option \<Rightarrow>
   real option \<Rightarrow> state \<Rightarrow> bool \<times> state" where
  "open_trade cfg now symb entry rsi_value change src alert_number log_message amount s =
     (if map_of (active_trades s) symb \<noteq> None then (False, s)
      else
        let amt = resolve_amount cfg amount s in
        if lower src \<noteq> ''live'' \<and> balance s < amt
        then (False, add_alert_log now (''SKIP: '' @ symb) (Lit ''Insufficient Funds'') s)
        else
          let t = new_trade cfg now entry rsi_value src alert_number amt;
              s1 = s\<lparr>active_trades := AList.update symb t (active_trades s),
                     last_trade_execution_time := now\<rparr>;
              final_log_message =
                (case log_message of
                   Some m \<Rightarrow> m
                 | None \<Rightarrow> (case rsi_value of PNum r \<Rightarrow> Fmt2f r | v \<Rightarrow> OfVal v));
              s2 = add_alert_log now (''OPEN SHORT ('' @ src @ ''): '' @ symb)
                     final_log_message s1
          in (True, publish (TRADE_OPENED t) s2))"

definition realize_pnl :: "trade \<Rightarrow> state \<Rightarrow> state" where
  "realize_pnl td s =
     (if lower (source td) \<noteq> ''live''
      then
        let p = pnl_usdt td; s1 = s\<lparr>balance := balance s + p\<rparr>; g = global_stats s1 in
        if p \<ge> 0
        then s1\<lparr>global_stats := g\<lparr>global_profit_usdt := global_profit_usdt g + p,
                                   profitable_trades := profitable_trades g + 1\<rparr>\<rparr>
        else s1\<lparr>global_stats := g\<lparr>global_loss_usdt := global_loss_usdt g + \<bar>p\<bar>,
                                   loss_trades := loss_trades g + 1\<rparr>\<rparr>
      else s)"

definition close_trade ::
  "config \<Rightarrow> real \<Rightarrow> string \<Rightarrow> ftext \<Rightarrow> real \<Rightarrow> pyval \<Rightarrow> state \<Rightarrow> state" where
  "close_trade cfg now symb reason close_price exit_rsi s =
     (case map_of (active_trades s) symb of
        None \<Rightarrow> s
      | Some trade_data \<Rightarrow>
          let s1 = s\<lparr>active_trades := AList.delete symb (active_trades s)\<rparr>;
              s2 = realize_pnl trade_data s1;
              cooldown_end_time = now + DEFAULT_COOLDOWN_PERIOD cfg;
              s3 = publish (ADD_TO_COOLDOWN symb reason cooldown_end_time) s2;
              s4 = add_alert_log now (''CLOSE SHORT: '' @ symb) reason s3;
              s5 = publish (TRADE_CLOSED trade_data reason close_price exit_rsi (balance s4)) s4
          in publish PORTFOLIO_UPDATED (publish STATS_UPDATED s5))"

definition update_watermarks :: "real \<Rightarrow> real \<Rightarrow> pyval \<Rightarrow> trade \<Rightarrow> trade" where
  "update_watermarks p_pct p_usdt current_rsi t =
     (case current_rsi of
        PNum r \<Rightarrow>
          let t1 = (if p_pct < max_neg_pnl_pct t then t\<lparr>max_neg_pnl_pct := p_pct\<rparr> else t);
              t2 = (if p_usdt < max_neg_pnl_usdt t1 then t1\<lparr>max_neg_pnl_usdt := p_usdt\<rparr> else t1)
          in (if r < max_neg_rsi t2 then t2\<lparr>max_neg_rsi := r\<rparr> else t2)
      | _ \<Rightarrow> t)"

definition update_trade_pnl :: "string \<Rightarrow> real \<Rightarrow> real \<Rightarrow> pyval \<Rightarrow> state \<Rightarrow> state" where
  "update_trade_pnl symb p_pct p_usdt current_rsi s =
     (case map_of (active_trades s) symb of
        None \<Rightarrow> s
      | Some t \<Rightarrow>
          let t1 = t\<lparr>pnl_percent := p_pct, pnl_usdt := p_usdt\<rparr>;
              t2 = update_watermarks p_pct p_usdt current_rsi t1
          in s\<lparr>active_trades := AList.update symb t2 (active_trades s)\<rparr>)"

definition activate_global_pause :: "config \<Rightarrow> nat \<Rightarrow> state \<Rightarrow> state" where
  "activate_global_pause cfg loss_count s =
     (if \<not> global_pause_active (controls s)
      then
        let s1 = s\<lparr>controls := (controls s)\<lparr>global_pause_active := True,
                                             trade_execution_enabled := False\<rparr>\<rparr>;
            s2 = publish (GLOBAL_PAUSE_TRIGGERED loss_count) s1
        in s2\<lparr>timers := timers s2 @ [GLOBAL_PAUSE_DURATION_HOURS cfg * 3600]\<rparr>
      else s)"

definition lift_global_pause :: "state \<Rightarrow> state" where
  "lift_global_pause s =
     (if global_pause_active (controls s)
      then publish GLOBAL_PAUSE_LIFTED
             (s\<lparr>controls := (controls s)\<lparr>global_pause_active := False\<rparr>\<rparr>)
      else s)"

text \<open>
  \<open>get_symbols_to_monitor\<close>. \<open>sorted(..., reverse=True)\<close> is a stable sort on the
  descending key, that is \<open>sort_key\<close> on the negated key. The watch-list is first built
  as a Python \<open>set\<close>, whose iteration order is not fixed: \<open>enum\<close> stands for
  \<open>list(symbols_set)\<close> and is any function listing each element of its argument once.
\<close>

definition MAX_COINS_TO_MONITOR :: nat where
  "MAX_COINS_TO_MONITOR = 100"

definition all_coins_sorted :: "state \<Rightarrow> coin list" where
  "all_coins_sorted s = sort_key (\<lambda>c. - change_24h c) (map snd (coin_data s))"

definition hot_coins_above_base :: "config \<Rightarrow> state \<Rightarrow> coin list" where
  "hot_coins_above_base cfg s =
     filter (\<lambda>c. change_24h c \<ge> RSI_HOT_COIN_THRESHOLD cfg) (all_coins_sorted s)"

definition dynamic_threshold :: "config \<Rightarrow> state \<Rightarrow> real" where
  "dynamic_threshold cfg s =
     (if length (hot_coins_above_base cfg s) > MAX_COINS_TO_MONITOR
      then change_24h (hot_coins_above_base cfg s ! (MAX_COINS_TO_MONITOR - 1))
      else RSI_HOT_COIN_THRESHOLD cfg)"

definition final_hot_coins :: "config \<Rightarrow> state \<Rightarrow> string list" where
  "final_hot_coins cfg s =
     map symbol (filter (\<lambda>c. change_24h c \<ge> dynamic_threshold cfg s)
                        (hot_coins_above_base cfg s))"

text \<open>\<open>self.coin_data.get(s, {}).get('change_24h', 0)\<close>\<close>

definition change_of :: "state \<Rightarrow> string \<Rightarrow> real" where
  "change_of s k = (case map_of (coin_data s) k of Some c \<Rightarrow> change_24h c | None \<Rightarrow> 0)"

definition get_symbols_to_monitor ::
  "config \<Rightarrow> (string list \<Rightarrow> string list) \<Rightarrow> state \<Rightarrow> string list" where
  "get_symbols_to_monitor cfg enum s =
     (let symbols_set = map fst (active_trades s) @ map fst (cooldowned_coins s)
                        @ final_hot_coins cfg s
      in sort_key (\<lambda>k. - change_of s k) (enum symbols_set))"

section \<open>DatabaseManager: cooldown handler and breaker scan\<close>

text \<open>\<open>handle_add_to_cooldown\<close>, the subscriber of \<open>ADD_TO_COOLDOWN\<close>.\<close>

definition handle_add_to_cooldown :: "string \<Rightarrow> ftext \<Rightarrow> real \<Rightarrow> state \<Rightarrow> state" where
  "handle_add_to_cooldown symb reason end_time s =
     s\<lparr>cooldowned_coins := AList.update symb (reason, end_time) (cooldowned_coins s)\<rparr>"

text \<open>The cooldown test of \<open>handle_rsi_update\<close>: an entry exists and has not expired.\<close>

definition is_on_cooldown :: "real \<Rightarrow> string \<Rightarrow> state \<Rightarrow> bool" where
  "is_on_cooldown now symb s =
     (case map_of (cooldowned_coins s) symb of
        None \<Rightarrow> False
      | Some (reason, end_time) \<Rightarrow> now < end_time)"

text \<open>
  A row of the \<open>trades\<close> table, as far as the scan reads it: the instant that
  \<open>parse_custom_date\<close> gets from \<open>Timestamp\<close> (\<open>None\<close> when it does not parse) and
  the number \<open>pd.to_numeric\<close> gets from \<open>PNL_USDT\<close> (\<open>None\<close> for NULL or a
  non-number, which compare false).
\<close>

record db_row =
  Timestamp_dt :: "real option"
  PNL_USDT :: "real option"

text \<open>
  \<open>_read_db_to_df(self, query, db_path=None)\<close>: \<open>query\<close> is a required positional
  parameter, so a call that passes none raises \<open>TypeError\<close>. The argument is \<open>None\<close>
  for such a call. With a query the rows of the table are returned.
\<close>

definition read_db_to_df :: "string option \<Rightarrow> db_row list \<Rightarrow> error + db_row list" where
  "read_db_to_df query db = (case query of None \<Rightarrow> Inl TypeError | Some q \<Rightarrow> Inr db)"

text \<open>
  The two row filters of the scan: \<open>df['Timestamp_dt'] > twenty_four_hours_ago\<close>, with
  \<open>twenty_four_hours_ago = datetime.now() - timedelta(hours=24)\<close>, and
  \<open>pnl_series < 0\<close>.
\<close>

definition is_recent :: "real \<Rightarrow> db_row \<Rightarrow> bool" where
  "is_recent now r =
     (let twenty_four_hours_ago = now - 24 * 3600
      in case Timestamp_dt r of Some t \<Rightarrow> t > twenty_four_hours_ago | None \<Rightarrow> False)"

definition is_loss :: "db_row \<Rightarrow> bool" where
  "is_loss r = (case PNL_USDT r of Some p \<Rightarrow> p < 0 | None \<Rightarrow> False)"

text \<open>The part of \<open>check_for_global_pause\<close> that follows \<open>if df.empty: return\<close>.\<close>

definition count_recent_losses :: "config \<Rightarrow> real \<Rightarrow> db_row list \<Rightarrow> state \<Rightarrow> state" where
  "count_recent_losses cfg now df s =
     (let recent_trades = filter (is_recent now) df;
          loss_trades_rows = filter is_loss recent_trades
      in if int (length loss_trades_rows) \<ge> LOSS_TRADES_LIMIT_24H cfg
         then activate_global_pause cfg (length loss_trades_rows) s
         else s)"

text \<open>
  \<open>check_for_global_pause\<close> calls \<open>self._read_db_to_df()\<close> with no argument, inside
  \<open>try ... except Exception\<close>, which prints the error and returns.
\<close>

definition check_for_global_pause :: "config \<Rightarrow> real \<Rightarrow> db_row list \<Rightarrow> state \<Rightarrow> state" where
  "check_for_global_pause cfg now db s =
     (case read_db_to_df None db of
        Inl e \<Rightarrow> s
      | Inr df \<Rightarrow> if df = [] then s else count_recent_losses cfg now df s)"

section \<open>TradingService: the paper monitoring tick\<close>

text \<open>
  \<open>_monitor_paper_trade(symbol, trade)\<close>. The division by \<open>trade['entry_price']\<close>
  raises \<open>ZeroDivisionError\<close> for a zero entry price, before anything is written, so
  \<open>Inl\<close> leaves the store as it was. The two reasons are f-strings over the
  configuration.
\<close>

definition target_profit_reason :: "config \<Rightarrow> ftext" where
  "target_profit_reason cfg =
     Join (Lit ''Target Profit (>'') (Join (FmtNum (TAKE_PROFIT_PERCENT cfg)) (Lit ''%)''))"

definition rsi_close_reason :: "config \<Rightarrow> ftext" where
  "rsi_close_reason cfg =
     Join (Lit ''RSI Close (<'') (Join (FmtNum (TRADE_CLOSE_RSI cfg)) (Lit '')''))"

definition rsi_at_or_below :: "pyval \<Rightarrow> real \<Rightarrow> bool" where
  "rsi_at_or_below v bound = (case v of PNum r \<Rightarrow> r \<le> bound | _ \<Rightarrow> False)"

definition monitor_paper_trade ::
  "config \<Rightarrow> real \<Rightarrow> string \<Rightarrow> trade \<Rightarrow> state \<Rightarrow> error + state" where
  "monitor_paper_trade cfg now symb t s =
     (let current_price = map_option price (map_of (coin_data s) symb);
          current_rsi = (case map_of (rsi_data s) symb of Some v \<Rightarrow> v | None \<Rightarrow> PNone)
      in case current_price of
           None \<Rightarrow> Inr s
         | Some cp \<Rightarrow>
             if cp = 0 then Inr s
             else if entry_price t = 0 then Inl ZeroDivisionError
             else
               let price_change_percent = ((entry_price t - cp) / entry_price t) * 100;
                   p_pct = price_change_percent * leverage t;
                   p_usdt = (trade_amount t * leverage t) * (price_change_percent / 100);
                   s1 = update_trade_pnl symb p_pct p_usdt current_rsi s
               in if \<not> global_pause_active (controls s1)
                  then
                    if p_pct \<ge> TAKE_PROFIT_PERCENT cfg
                    then Inr (close_trade cfg now symb (target_profit_reason cfg) cp
                                (or_zero current_rsi) s1)
                    else if rsi_at_or_below current_rsi (TRADE_CLOSE_RSI cfg) \<and> p_usdt > 0
                    then Inr (close_trade cfg now symb (rsi_close_reason cfg) cp
                                current_rsi s1)
                    else Inr s1
                  else Inr s1)"

section \<open>Concrete inputs\<close>

text \<open>A paper trade as \<open>open_trade\<close> creates it, and stores that hold it.\<close>

definition demo_trade :: trade where
  "demo_trade = new_trade default_config 0 100 (PNum 96) ''Bot'' 1 3"

definition demo_state :: state where
  "demo_state = init_state\<lparr>active_trades := [(''XUSDT'', demo_trade)], balance := 1000\<rparr>"

text \<open>Trade execution armed, one trade open, the last open stamped at instant 50.\<close>

definition armed_state :: state where
  "armed_state =
     demo_state\<lparr>controls := (controls demo_state)\<lparr>trade_execution_enabled := True\<rparr>,
                last_trade_execution_time := 50\<rparr>"

text \<open>Ten open trades, the default \<open>MAX_OPEN_TRADES\<close>.\<close>

definition ten_trades :: state where
  "ten_trades =
     init_state\<lparr>active_trades :=
        map (\<lambda>k. (k, demo_trade))
          [''AUSDT'', ''BUSDT'', ''CUSDT'', ''DUSDT'', ''EUSDT'',
           ''FUSDT'', ''GUSDT'', ''HUSDT'', ''IUSDT'', ''JUSDT''],
       balance := 1000\<rparr>"

text \<open>A balance below the fixed trade amount of 3 USDT.\<close>

definition poor_state :: state where
  "poor_state = init_state\<lparr>balance := 1\<rparr>"

text \<open>
  Three closed trades inside the 24 hours before instant 100000, each with a loss.
\<close>

definition three_losses :: "db_row list" where
  "three_losses =
     [\<lparr>Timestamp_dt = Some 90000, PNL_USDT = Some (-1)\<rparr>,
      \<lparr>Timestamp_dt = Some 95000, PNL_USDT = Some (-2)\<rparr>,
      \<lparr>Timestamp_dt = Some 99000, PNL_USDT = Some (-3)\<rparr>]"

text \<open>
  The breaker tripped while the trade on XUSDT, entered at 100, is open; the price is
  now 90 and the indicator 60, so both exit rules would fire without the pause.
\<close>

definition paused_state :: state where
  "paused_state =
     demo_state\<lparr>coin_data := [(''XUSDT'', \<lparr>symbol = ''XUSDT'', price = 90, change_24h = 12,
                                            high_24h = 110\<rparr>)],
                rsi_data := [(''XUSDT'', PNum 60)],
                controls := (controls demo_state)\<lparr>global_pause_active := True\<rparr>\<rparr>"

text \<open>A funded store that quotes XUSDT at 90, with no trade open.\<close>

definition quoted_state :: state where
  "quoted_state =
     init_state\<lparr>coin_data := [(''XUSDT'', \<lparr>symbol = ''XUSDT'', price = 90, change_24h = 12,
                                            high_24h = 110\<rparr>)],
                balance := 1000\<rparr>"

text \<open>
  150 coins with pairwise different symbols, the coin of index \<open>i\<close> having the 24h
  change \<open>change i\<close>; no trade is open and no coin is on cooldown. In the flat rally
  every change is 20, in the ramp the changes are 10, 11, ..., 159.
\<close>

definition coin_name :: "nat \<Rightarrow> string" where
  "coin_name i = replicate i (CHR ''X'') @ ''USDT''"

definition rally :: "(nat \<Rightarrow> real) \<Rightarrow> state" where
  "rally change =
     init_state\<lparr>coin_data :=
       map (\<lambda>i. (coin_name i, \<lparr>symbol = coin_name i, price = 1, change_24h = change i,
                                 high_24h = 1\<rparr>)) [0..<150]\<rparr>"

definition flat_rally :: state where
  "flat_rally = rally (\<lambda>i. 20)"

definition ramp_rally :: state where
  "ramp_rally = rally (\<lambda>i. 10 + real i)"

section \<open>Auxiliary facts\<close>

lemma lower_Bot: "lower ''Bot'' \<noteq> ''live''"
  by code_simp

lemma demo_lookup: "map_of (active_trades demo_state) ''XUSDT'' = Some demo_trade"
  by (simp add: demo_state_def)


lemma length_update_new:
  "map_of al k = None \<Longrightarrow> length (AList.update k v al) = Suc (length al)"
  by (induction al) (auto split: if_splits)

lemma open_trade_success:
  assumes "fst (open_trade cfg now symb entry rsi_value change src alert_number log_message amount s)"
  shows "map_of (active_trades s) symb = None"
    and "active_trades (snd (open_trade cfg now symb entry rsi_value change src alert_number
                                log_message amount s))
         = AList.update symb
             (new_trade cfg now entry rsi_value src alert_number (resolve_amount cfg amount s))
             (active_trades s)"
    and "last_trade_execution_time
           (snd (open_trade cfg now symb entry rsi_value change src alert_number
                   log_message amount s)) = now"
  using assms
  by (auto simp: open_trade_def Let_def publish_def add_alert_log_def split: if_splits)

lemma update_keys_same:
  "map_of al k = Some v0 \<Longrightarrow> map fst (AList.update k v al) = map fst al"
  by (induction al) (auto split: if_splits)

lemma update_trade_pnl_frame:
  "map fst (active_trades (update_trade_pnl symb a b c s)) = map fst (active_trades s)"
  "events (update_trade_pnl symb a b c s) = events s"
  "controls (update_trade_pnl symb a b c s) = controls s"
  "balance (update_trade_pnl symb a b c s) = balance s"
  "coin_data (update_trade_pnl symb a b c s) = coin_data s"
  by (auto simp: update_trade_pnl_def Let_def update_keys_same split: option.splits)

lemma update_watermarks_keeps:
  "pnl_percent (update_watermarks a b c t) = pnl_percent t"
  "pnl_usdt (update_watermarks a b c t) = pnl_usdt t"
  "source (update_watermarks a b c t) = source t"
  by (auto simp: update_watermarks_def Let_def split: pyval.splits)

lemma close_trade_absent:
  "map_of (active_trades s) symb = None \<Longrightarrow> close_trade cfg now symb r cp er s = s"
  by (simp add: close_trade_def)

lemma close_trade_paper:
  assumes "map_of (active_trades s) symb = Some td" and "lower (source td) \<noteq> ''live''"
  shows "balance (close_trade cfg now symb r cp er s) = balance s + pnl_usdt td"
    and "events (close_trade cfg now symb r cp er s)
           = events s @ [ADD_TO_COOLDOWN symb r (now + DEFAULT_COOLDOWN_PERIOD cfg),
                         TRADE_CLOSED td r cp er (balance s + pnl_usdt td),
                         STATS_UPDATED, PORTFOLIO_UPDATED]"
    and "map_of (active_trades (close_trade cfg now symb r cp er s)) symb = None"
  using assms
  by (simp_all add: close_trade_def realize_pnl_def publish_def add_alert_log_def Let_def
      delete_conv')

lemma open_trade_paper:
  assumes "map_of (active_trades s) symb = None"
    and "\<not> (lower src \<noteq> ''live'' \<and> balance s < resolve_amount cfg amount s)"
  shows "fst (open_trade cfg now symb entry rsi_value change src n lm amount s)"
    and "active_trades (snd (open_trade cfg now symb entry rsi_value change src n lm amount s))
          = AList.update symb (new_trade cfg now entry rsi_value src n (resolve_amount cfg amount s)) (active_trades s)"
    and "balance (snd (open_trade cfg now symb entry rsi_value change src n lm amount s)) = balance s"
    and "events (snd (open_trade cfg now symb entry rsi_value change src n lm amount s))
          = events s @ [TRADE_OPENED (new_trade cfg now entry rsi_value src n (resolve_amount cfg amount s))]"
    and "coin_data (snd (open_trade cfg now symb entry rsi_value change src n lm amount s)) = coin_data s"
  using assms
  by (auto simp: open_trade_def Let_def publish_def add_alert_log_def)

lemma cooldown_after_handler:
  "is_on_cooldown now symb (handle_add_to_cooldown symb r e s) \<longleftrightarrow> now < e"
  by (simp add: is_on_cooldown_def handle_add_to_cooldown_def update_conv')

lemma sorted_desc_nth:
  "i \<le> j \<Longrightarrow> j < length (all_coins_sorted s) \<Longrightarrow>
   change_24h (all_coins_sorted s ! j) \<le> change_24h (all_coins_sorted s ! i)"
proof -
  assume ij: "i \<le> j" and j: "j < length (all_coins_sorted s)"
  have "sorted (map (\<lambda>c. - change_24h c) (all_coins_sorted s))"
    unfolding all_coins_sorted_def by (rule sorted_sort_key)
  from sorted_nth_mono[OF this, of i j] ij j show ?thesis by simp
qed

lemma filter_prefix:
  assumes "n \<le> length xs"
    and "\<And>i. i < n \<Longrightarrow> P (xs ! i)"
    and "\<And>i. n \<le> i \<Longrightarrow> i < length xs \<Longrightarrow> \<not> P (xs ! i)"
  shows "filter P xs = take n xs"
proof -
  have a: "filter P (take n xs) = take n xs"
    using assms(1,2) by (auto simp: filter_id_conv in_set_conv_nth)
  have b: "filter P (drop n xs) = []"
    using assms(1,3) by (auto simp: filter_empty_conv in_set_conv_nth)
  have "filter P xs = filter P (take n xs @ drop n xs)" by simp
  also have "\<dots> = take n xs" unfolding filter_append a b by simp
  finally show ?thesis .
qed

lemma length_filter_prefix:
  assumes "n \<le> length xs" and "\<And>i. i < n \<Longrightarrow> P (xs ! i)"
  shows "n \<le> length (filter P xs)"
proof -
  have a: "filter P (take n xs) = take n xs"
    using assms by (auto simp: filter_id_conv in_set_conv_nth)
  have "filter P xs = filter P (take n xs @ drop n xs)" by simp
  then have "length (filter P xs) = length (take n xs) + length (filter P (drop n xs))"
    unfolding filter_append a by simp
  then show ?thesis using assms(1) by simp
qed

text \<open>
  The watch-list on a store whose coins all reach the base threshold, with no trade
  open and no cooldown.
\<close>

lemma hot_all:
  assumes "\<forall>(k, c) \<in> set (coin_data s). change_24h c \<ge> RSI_HOT_COIN_THRESHOLD cfg"
  shows "hot_coins_above_base cfg s = all_coins_sorted s"
  using assms by (auto simp: hot_coins_above_base_def all_coins_sorted_def filter_id_conv)

lemma threshold_raised:
  assumes "\<forall>(k, c) \<in> set (coin_data s). change_24h c \<ge> RSI_HOT_COIN_THRESHOLD cfg"
    and "length (coin_data s) > 100"
  shows "dynamic_threshold cfg s = change_24h (all_coins_sorted s ! 99)"
  using assms(2)
  by (simp add: dynamic_threshold_def hot_all[OF assms(1)] all_coins_sorted_def
      MAX_COINS_TO_MONITOR_def)

lemma change_of_symbol:
  assumes "distinct (map fst (coin_data s))"
    and "\<forall>(k, c) \<in> set (coin_data s). symbol c = k"
    and "c \<in> snd ` set (coin_data s)"
  shows "change_of s (symbol c) = change_24h c"
proof -
  from assms(3) obtain k where kc: "(k, c) \<in> set (coin_data s)" by auto
  with assms(2) have "symbol c = k" by auto
  with kc assms(1) have "map_of (coin_data s) (symbol c) = Some c" by simp
  then show ?thesis by (simp add: change_of_def)
qed

lemma symbols_distinct:
  assumes "distinct (map fst (coin_data s))"
    and "\<forall>(k, c) \<in> set (coin_data s). symbol c = k"
  shows "distinct (map symbol (all_coins_sorted s))"
proof -
  have eq: "map symbol (map snd (coin_data s)) = map fst (coin_data s)"
    using assms(2) by (auto simp: map_eq_conv)
  have d: "distinct (map symbol (map snd (coin_data s)))" unfolding eq by (rule assms(1))
  from d have "distinct (map snd (coin_data s)) \<and> inj_on symbol (set (map snd (coin_data s)))"
    by (simp only: distinct_map)
  then show ?thesis
    unfolding all_coins_sorted_def by (simp only: distinct_map distinct_sort set_sort) 
qed


lemma watch_list_set:
  assumes all_hot: "\<forall>(k, c) \<in> set (coin_data s). change_24h c \<ge> RSI_HOT_COIN_THRESHOLD cfg"
    and idle: "active_trades s = []" "cooldowned_coins s = []"
    and enum: "\<forall>xs. set (enum xs) = set xs \<and> distinct (enum xs)"
  shows "set (get_symbols_to_monitor cfg enum s)
           = symbol ` {c \<in> snd ` set (coin_data s). change_24h c \<ge> dynamic_threshold cfg s}"
    and "distinct (get_symbols_to_monitor cfg enum s)"
    and "sorted_wrt (\<lambda>a b. change_of s a \<ge> change_of s b) (get_symbols_to_monitor cfg enum s)"
proof -
  show "set (get_symbols_to_monitor cfg enum s)
           = symbol ` {c \<in> snd ` set (coin_data s). change_24h c \<ge> dynamic_threshold cfg s}"
    using enum idle
    by (auto simp: get_symbols_to_monitor_def final_hot_coins_def hot_all[OF all_hot]
        all_coins_sorted_def Let_def)
  show "distinct (get_symbols_to_monitor cfg enum s)"
    using enum by (simp add: get_symbols_to_monitor_def Let_def)
  have "sorted (map (\<lambda>k. - change_of s k) (get_symbols_to_monitor cfg enum s))"
    by (simp add: get_symbols_to_monitor_def Let_def)
  then show "sorted_wrt (\<lambda>a b. change_of s a \<ge> change_of s b) (get_symbols_to_monitor cfg enum s)"
    by (simp add: sorted_map)
qed

lemma watch_list_length:
  assumes all_hot: "\<forall>(k, c) \<in> set (coin_data s). change_24h c \<ge> RSI_HOT_COIN_THRESHOLD cfg"
    and idle: "active_trades s = []" "cooldowned_coins s = []"
    and enum: "\<forall>xs. set (enum xs) = set xs \<and> distinct (enum xs)"
    and keys: "distinct (map fst (coin_data s))"
    and syms: "\<forall>(k, c) \<in> set (coin_data s). symbol c = k"
  shows "length (get_symbols_to_monitor cfg enum s)
           = length (filter (\<lambda>c. change_24h c \<ge> dynamic_threshold cfg s) (all_coins_sorted s))"
proof -
  have d: "distinct (final_hot_coins cfg s)"
    unfolding final_hot_coins_def hot_all[OF all_hot]
    using symbols_distinct[OF keys syms] by (simp add: distinct_map_filter)
  have "length (get_symbols_to_monitor cfg enum s) = card (set (final_hot_coins cfg s))"
    using enum idle by (simp add: get_symbols_to_monitor_def Let_def distinct_card[symmetric])
  also have "\<dots> = length (final_hot_coins cfg s)" using d by (rule distinct_card)
  finally show ?thesis by (simp add: final_hot_coins_def hot_all[OF all_hot])
qed


lemma inj_coin_name: "inj coin_name"
proof (rule injI)
  fix i j assume "coin_name i = coin_name j"
  then have "length (coin_name i) = length (coin_name j)" by simp
  then show "i = j" by (simp add: coin_name_def)
qed

lemma rally_facts:
  "length (coin_data (rally f)) = 150"
  "distinct (map fst (coin_data (rally f)))"
  "\<forall>(k, c) \<in> set (coin_data (rally f)). symbol c = k"
  "active_trades (rally f) = []"
  "cooldowned_coins (rally f) = []"
proof -
  show "length (coin_data (rally f)) = 150" by (simp add: rally_def)
  have "map fst (coin_data (rally f)) = map coin_name [0..<150]"
    by (simp add: rally_def comp_def)
  then show "distinct (map fst (coin_data (rally f)))"
    by (simp add: distinct_map inj_on_subset[OF inj_coin_name subset_UNIV])
  show "\<forall>(k, c) \<in> set (coin_data (rally f)). symbol c = k"
    by (auto simp: rally_def)
  show "active_trades (rally f) = []" by (simp add: rally_def init_state_def)
  show "cooldowned_coins (rally f) = []" by (simp add: rally_def init_state_def)
qed

lemma rally_hot:
  "(\<And>i. i < 150 \<Longrightarrow> f i \<ge> 10) \<Longrightarrow>
   \<forall>(k, c) \<in> set (coin_data (rally f)). change_24h c \<ge> RSI_HOT_COIN_THRESHOLD default_config"
  by (auto simp: rally_def default_config_def)

lemma remdups_enum: "\<forall>xs. set (remdups xs) = set xs \<and> distinct (remdups xs)"
  by simp

lemma sort_key_reverses:
  assumes srt: "sorted (map f (rev xs))" and dist: "distinct (map f xs)"
  shows "sort_key f xs = rev xs"
proof -
  have inj: "inj_on f (set xs)" and dx: "distinct xs"
    using dist by (simp_all add: distinct_map)
  have d1: "distinct (map f (sort_key f xs))"
    using inj dx by (simp add: distinct_map)
  have d2: "distinct (map f (rev xs))"
    using inj dx by (simp add: distinct_map)
  have "map f (sort_key f xs) = map f (rev xs)"
    by (rule sorted_distinct_set_unique[OF sorted_sort_key d1 srt d2]) simp
  moreover have "inj_on f (set (sort_key f xs) \<union> set (rev xs))"
    using inj by simp
  ultimately show ?thesis by (simp only: inj_on_map_eq_map)
qed

lemma ramp_sorted:
  "all_coins_sorted ramp_rally = rev (map snd (coin_data ramp_rally))"
proof -
  have m: "map (\<lambda>c. - change_24h c) (map snd (coin_data ramp_rally))
           = map (\<lambda>i. - (10 + real i)) [0..<150]"
    by (simp add: ramp_rally_def rally_def comp_def)
  have "sorted_wrt (\<lambda>i j. - (10 + real j) \<le> - (10 + real i)) [0..<150]"
    by (rule sorted_wrt_mono_rel[OF _ sorted_wrt_upt]) simp
  then have s: "sorted (map (\<lambda>c. - change_24h c) (rev (map snd (coin_data ramp_rally))))"
    by (simp only: rev_map[symmetric] m sorted_wrt_rev sorted_wrt_map)
  have d: "distinct (map (\<lambda>c. - change_24h c) (map snd (coin_data ramp_rally)))"
    unfolding m by (simp add: distinct_map inj_on_def del: upt.simps)
  show ?thesis unfolding all_coins_sorted_def by (rule sort_key_reverses[OF s d])
qed

lemma ramp_rank:
  "change_24h (all_coins_sorted ramp_rally ! 99) = 60"
  "change_24h (all_coins_sorted ramp_rally ! 100) = 59"
  by (simp_all add: ramp_sorted rev_nth rally_facts[of "\<lambda>i. 10 + real i", folded ramp_rally_def])
     (simp_all add: ramp_rally_def rally_def del: upt.simps)

section \<open>The claims\<close>

subsection \<open>C1: the bound on open trades\<close>

text \<open>
  C1, as the code has it: \<open>open_trade\<close> does not read \<open>MAX_OPEN_TRADES\<close>. A successful
  call adds exactly one trade, so the number of active trades after it is at most
  \<open>MAX_OPEN_TRADES\<close> whenever it was strictly below \<open>MAX_OPEN_TRADES\<close> on entry, which
  is what the caller's \<open>can_open_new_trade\<close> check establishes.
\<close>

theorem open_trade_adds_one_trade:
  assumes "fst (open_trade cfg now symb entry rsi_value change src alert_number log_message amount s)"
  shows "length (active_trades (snd (open_trade cfg now symb entry rsi_value change src
                                       alert_number log_message amount s)))
           = length (active_trades s) + 1
       \<and> (int (length (active_trades s)) < MAX_OPEN_TRADES cfg \<longrightarrow>
           int (length (active_trades (snd (open_trade cfg now symb entry rsi_value change src
                                              alert_number log_message amount s))))
             \<le> MAX_OPEN_TRADES cfg)
       \<and> (can_open_new_trade cfg now s \<longrightarrow>
           int (length (active_trades (snd (open_trade cfg now symb entry rsi_value change src
                                              alert_number log_message amount s))))
             \<le> MAX_OPEN_TRADES cfg)"
  using open_trade_success(1,2)[OF assms]
  by (simp add: length_update_new can_open_new_trade_def)

text \<open>C1, witness: a second symbol opened on the store that holds one trade.\<close>

theorem open_trade_adds_one_trade_witness:
  "fst (open_trade default_config 50 ''YUSDT'' 100 (PNum 96) (PNum 12) ''Bot'' 2 None None
          demo_state) \<and>
   int (length (active_trades demo_state)) < MAX_OPEN_TRADES default_config \<and>
   length (active_trades (snd (open_trade default_config 50 ''YUSDT'' 100 (PNum 96) (PNum 12)
                                 ''Bot'' 2 None None demo_state))) = 2 \<and>
   int (length (active_trades (snd (open_trade default_config 50 ''YUSDT'' 100 (PNum 96)
                                      (PNum 12) ''Bot'' 2 None None demo_state))))
     \<le> MAX_OPEN_TRADES default_config"
proof -
  have ok: "fst (open_trade default_config 50 ''YUSDT'' 100 (PNum 96) (PNum 12) ''Bot'' 2 None
                   None demo_state)"
    by (simp add: open_trade_def demo_state_def init_state_def default_config_def
        resolve_amount_def Let_def publish_def add_alert_log_def lower_Bot)
  have n: "length (active_trades demo_state) = 1"
    by (simp add: demo_state_def)
  have m: "MAX_OPEN_TRADES default_config = 10"
    by (simp add: default_config_def)
  from open_trade_adds_one_trade[OF ok] show ?thesis
    using ok n m by simp
qed

text \<open>
  C1, counterexample: with ten trades open, opening an eleventh symbol succeeds and
  leaves eleven active trades, above \<open>MAX_OPEN_TRADES = 10\<close>.
\<close>

theorem open_trade_exceeds_max_open_trades:
  "fst (open_trade default_config 50 ''KUSDT'' 100 (PNum 96) (PNum 12) ''Bot'' 11 None None
          ten_trades) \<and>
   int (length (active_trades (snd (open_trade default_config 50 ''KUSDT'' 100 (PNum 96)
                                      (PNum 12) ''Bot'' 11 None None ten_trades))))
     > MAX_OPEN_TRADES default_config"
  by (simp add: open_trade_def ten_trades_def init_state_def default_config_def
      resolve_amount_def Let_def publish_def add_alert_log_def lower_Bot)

subsection \<open>C3: when \<open>open_trade\<close> fails\<close>

text \<open>
  C3, as the code has it: \<open>open_trade\<close> returns \<open>False\<close> in exactly two cases, the
  symbol is already an active trade, or the source is not Live and the balance is below
  the resolved trade amount. In the first case the whole store is unchanged and no event
  is published. In the second case active trades, balance, statistics, last-open time
  and event queue are unchanged, and one line, \<open>SKIP: symbol\<close> with the message
  \<open>Insufficient Funds\<close>, is put in front of the alert log, which is cut to 50 lines.
\<close>

theorem open_trade_failure_cases:
  "let r = open_trade cfg now symb entry rsi_value change src alert_number log_message amount s;
       already_open = (map_of (active_trades s) symb \<noteq> None);
       short_of_funds = (lower src \<noteq> ''live'' \<and> balance s < resolve_amount cfg amount s)
   in (\<not> fst r \<longleftrightarrow> already_open \<or> short_of_funds) \<and>
      (already_open \<longrightarrow> snd r = s) \<and>
      (\<not> already_open \<and> short_of_funds \<longrightarrow>
         snd r = s\<lparr>alert_log :=
                      take 50 ((now, ''SKIP: '' @ symb, Lit ''Insufficient Funds'')
                               # alert_log s)\<rparr>)"
  by (simp add: open_trade_def Let_def add_alert_log_def)

text \<open>
  C3, witness: a paper open on a store whose balance is 1, below the fixed amount 3;
  the symbol is not open, the call fails, and only the alert log differs.
\<close>

theorem open_trade_failure_cases_witness:
  "\<not> fst (open_trade default_config 50 ''XUSDT'' 100 (PNum 96) (PNum 12) ''Bot'' 1 None None
            poor_state) \<and>
   map_of (active_trades poor_state) ''XUSDT'' = None \<and>
   lower ''Bot'' \<noteq> ''live'' \<and>
   balance poor_state < resolve_amount default_config None poor_state \<and>
   snd (open_trade default_config 50 ''XUSDT'' 100 (PNum 96) (PNum 12) ''Bot'' 1 None None
          poor_state)
     = poor_state\<lparr>alert_log := [(50, ''SKIP: XUSDT'', Lit ''Insufficient Funds'')]\<rparr>"
proof -
  have a: "map_of (active_trades poor_state) ''XUSDT'' = None"
    by (simp add: poor_state_def init_state_def)
  have b: "balance poor_state < resolve_amount default_config None poor_state"
    by (simp add: poor_state_def init_state_def resolve_amount_def default_config_def)
  have c: "alert_log poor_state = []"
    by (simp add: poor_state_def init_state_def)
  show ?thesis
    using open_trade_failure_cases[of default_config 50 "''XUSDT''" 100 "PNum 96" "PNum 12"
        "''Bot''" 1 None None poor_state]
    by (simp add: Let_def a b c lower_Bot)
qed

text \<open>
  C3, counterexample: the same failing call returns \<open>False\<close> and yet the alert log,
  empty before, holds a line after it, so the store is not left unchanged.
\<close>

theorem open_trade_failure_writes_alert_log:
  "\<not> fst (open_trade default_config 50 ''XUSDT'' 100 (PNum 96) (PNum 12) ''Bot'' 1 None None
            poor_state) \<and>
   alert_log poor_state = [] \<and>
   alert_log (snd (open_trade default_config 50 ''XUSDT'' 100 (PNum 96) (PNum 12) ''Bot'' 1
                     None None poor_state))
     = [(50, ''SKIP: XUSDT'', Lit ''Insufficient Funds'')] \<and>
   snd (open_trade default_config 50 ''XUSDT'' 100 (PNum 96) (PNum 12) ''Bot'' 1 None None
          poor_state) \<noteq> poor_state"
proof -
  have a: "alert_log (snd (open_trade default_config 50 ''XUSDT'' 100 (PNum 96) (PNum 12)
                             ''Bot'' 1 None None poor_state))
             = [(50, ''SKIP: XUSDT'', Lit ''Insufficient Funds'')]"
    by (simp add: open_trade_def poor_state_def init_state_def default_config_def
        resolve_amount_def Let_def add_alert_log_def lower_Bot)
  have b: "alert_log poor_state = []"
    by (simp add: poor_state_def init_state_def)
  have c: "snd (open_trade default_config 50 ''XUSDT'' 100 (PNum 96) (PNum 12) ''Bot'' 1 None
                  None poor_state) \<noteq> poor_state"
    using a b by (metis list.distinct(1))
  have d: "\<not> fst (open_trade default_config 50 ''XUSDT'' 100 (PNum 96) (PNum 12) ''Bot'' 1
                     None None poor_state)"
    by (simp add: open_trade_def poor_state_def init_state_def default_config_def
        resolve_amount_def Let_def add_alert_log_def lower_Bot)
  show ?thesis using a b c d by simp
qed

subsection \<open>C4: the entry check and its rate limiter\<close>

text \<open>
  C4, as the code has it: \<open>can_open_new_trade\<close> is true iff trade execution is enabled,
  the global pause is not active, fewer than \<open>MAX_OPEN_TRADES\<close> trades are open and
  strictly more than 10 seconds have passed since the last successful open. After a
  successful \<open>open_trade\<close> at instant \<open>t0\<close> it is false at \<open>t0\<close> and stays false up to
  and including \<open>t0 + 10\<close>; later it is true iff the other three conditions hold.
\<close>

theorem can_open_new_trade_after_open:
  assumes "fst (open_trade cfg t0 symb entry rsi_value change src alert_number log_message amount s)"
  shows "let s' = snd (open_trade cfg t0 symb entry rsi_value change src alert_number
                         log_message amount s)
         in \<not> can_open_new_trade cfg t0 s' \<and>
            (\<forall>t. t \<le> t0 + 10 \<longrightarrow> \<not> can_open_new_trade cfg t s') \<and>
            (\<forall>t. can_open_new_trade cfg t s' \<longleftrightarrow>
                   trade_execution_enabled (controls s') \<and>
                   \<not> global_pause_active (controls s') \<and>
                   int (length (active_trades s')) < MAX_OPEN_TRADES cfg \<and>
                   t - t0 > 10) \<and>
            (\<forall>t s2. can_open_new_trade cfg t s2 \<longleftrightarrow>
                   trade_execution_enabled (controls s2) \<and>
                   \<not> global_pause_active (controls s2) \<and>
                   int (length (active_trades s2)) < MAX_OPEN_TRADES cfg \<and>
                   t - last_trade_execution_time s2 > 10)"
  using open_trade_success(3)[OF assms]
  by (simp add: can_open_new_trade_def Let_def)

text \<open>
  C4, witness: a second symbol opened at instant 50 on the armed store; the check
  fails at 50 and at 60, and passes at 61.
\<close>

theorem can_open_new_trade_after_open_witness:
  "fst (open_trade default_config 50 ''YUSDT'' 100 (PNum 96) (PNum 12) ''Bot'' 2 None None
          armed_state) \<and>
   \<not> can_open_new_trade default_config 50
       (snd (open_trade default_config 50 ''YUSDT'' 100 (PNum 96) (PNum 12) ''Bot'' 2 None None
               armed_state)) \<and>
   \<not> can_open_new_trade default_config 60
       (snd (open_trade default_config 50 ''YUSDT'' 100 (PNum 96) (PNum 12) ''Bot'' 2 None None
               armed_state)) \<and>
   can_open_new_trade default_config 61
       (snd (open_trade default_config 50 ''YUSDT'' 100 (PNum 96) (PNum 12) ''Bot'' 2 None None
               armed_state))"
proof -
  have ok: "fst (open_trade default_config 50 ''YUSDT'' 100 (PNum 96) (PNum 12) ''Bot'' 2 None
                   None armed_state)"
    by (simp add: open_trade_def armed_state_def demo_state_def init_state_def
        default_config_def resolve_amount_def Let_def publish_def add_alert_log_def lower_Bot)
  have st: "trade_execution_enabled
              (controls (snd (open_trade default_config 50 ''YUSDT'' 100 (PNum 96) (PNum 12)
                                ''Bot'' 2 None None armed_state))) \<and>
            \<not> global_pause_active
              (controls (snd (open_trade default_config 50 ''YUSDT'' 100 (PNum 96) (PNum 12)
                                ''Bot'' 2 None None armed_state))) \<and>
            length (active_trades (snd (open_trade default_config 50 ''YUSDT'' 100 (PNum 96)
                                          (PNum 12) ''Bot'' 2 None None armed_state))) = 2"
    by (simp add: open_trade_def armed_state_def demo_state_def init_state_def
        default_config_def resolve_amount_def Let_def publish_def add_alert_log_def lower_Bot)
  have m: "MAX_OPEN_TRADES default_config = 10"
    by (simp add: default_config_def)
  have elapsed: "\<And>t. can_open_new_trade default_config t
                   (snd (open_trade default_config 50 ''YUSDT'' 100 (PNum 96) (PNum 12) ''Bot''
                           2 None None armed_state))
               \<longleftrightarrow> t - 50 > 10"
    using can_open_new_trade_after_open[OF ok] st m unfolding Let_def by auto
  show ?thesis
    using ok by (simp add: elapsed)
qed

text \<open>
  C4, counterexample: on the armed store the last open was at instant 50; at instant
  60, when 10 seconds have elapsed and nothing else blocks, the check still fails.
\<close>

theorem can_open_new_trade_false_at_ten_seconds:
  "trade_execution_enabled (controls armed_state) \<and>
   \<not> global_pause_active (controls armed_state) \<and>
   int (length (active_trades armed_state)) < MAX_OPEN_TRADES default_config \<and>
   (60::real) - last_trade_execution_time armed_state \<ge> 10 \<and>
   \<not> can_open_new_trade default_config 60 armed_state"
  by (simp add: can_open_new_trade_def armed_state_def demo_state_def init_state_def
      default_config_def)

subsection \<open>C2: the breaker scan\<close>

text \<open>
  C2: the trade database holds three closed trades of the trailing 24-hour window, all
  with negative \<open>PNL_USDT\<close>, the loss limit is 1, and the store has trade execution
  enabled and the pause inactive. The claim is that the scan \<open>check_for_global_pause\<close>
  trips the breaker. In the code the read of the table raises before any row is
  counted and the handler returns, so the scan leaves the store as it was: the pause
  stays inactive, trade execution stays enabled and no event is published.
\<close>

theorem check_for_global_pause_does_not_trip:
  "check_for_global_pause default_config 100000 three_losses armed_state = armed_state \<and>
   \<not> global_pause_active
       (controls (check_for_global_pause default_config 100000 three_losses armed_state)) \<and>
   trade_execution_enabled
       (controls (check_for_global_pause default_config 100000 three_losses armed_state)) \<and>
   events (check_for_global_pause default_config 100000 three_losses armed_state) = []"
  by (simp add: check_for_global_pause_def read_db_to_df_def armed_state_def demo_state_def
      init_state_def)

subsection \<open>C7: no exit while the breaker is tripped\<close>

text \<open>
  C7: while \<open>global_pause_active\<close> is set, a paper-monitoring tick closes no trade and
  publishes nothing, whatever the pnl and the indicator are: the symbols of the active
  trades, every other trade, the balance and the event queue are as before. The tick
  still writes the running pnl: when a non-zero price is known (and the entry price is
  not zero), the trade stored under the symbol has, after the tick, the recomputed
  \<open>pnl_percent\<close> and \<open>pnl_usdt\<close>, and the tick is exactly the \<open>update_trade_pnl\<close> call
  with those values.
\<close>

theorem monitor_paper_trade_paused:
  assumes "global_pause_active (controls s)"
  shows "case monitor_paper_trade cfg now symb t s of
           Inl e \<Rightarrow> e = ZeroDivisionError \<and> entry_price t = 0
         | Inr s' \<Rightarrow>
             map fst (active_trades s') = map fst (active_trades s) \<and>
             (\<forall>k. k \<noteq> symb \<longrightarrow> map_of (active_trades s') k = map_of (active_trades s) k) \<and>
             events s' = events s \<and>
             balance s' = balance s \<and>
             (case map_of (coin_data s) symb of
                None \<Rightarrow> s' = s
              | Some c \<Rightarrow>
                  if price c = 0 then s' = s
                  else
                    (\<forall>t0. map_of (active_trades s) symb = Some t0 \<longrightarrow>
                       (\<exists>t'. map_of (active_trades s') symb = Some t' \<and>
                          pnl_percent t'
                            = ((entry_price t - price c) / entry_price t) * 100 * leverage t \<and>
                          pnl_usdt t'
                            = (trade_amount t * leverage t)
                              * ((((entry_price t - price c) / entry_price t) * 100) / 100))) \<and>
                    s' = update_trade_pnl symb
                         (((entry_price t - price c) / entry_price t) * 100 * leverage t)
                         ((trade_amount t * leverage t)
                            * ((((entry_price t - price c) / entry_price t) * 100) / 100))
                         (case map_of (rsi_data s) symb of Some v \<Rightarrow> v | None \<Rightarrow> PNone) s)"
proof -
  have others: "\<And>a b c k. k \<noteq> symb \<Longrightarrow>
      map_of (active_trades (update_trade_pnl symb a b c s)) k = map_of (active_trades s) k"
    by (auto simp: update_trade_pnl_def Let_def update_conv' split: option.splits)
  have written: "\<And>a b c t0. map_of (active_trades s) symb = Some t0 \<Longrightarrow>
      \<exists>t'. map_of (active_trades (update_trade_pnl symb a b c s)) symb = Some t' \<and>
           pnl_percent t' = a \<and> pnl_usdt t' = b"
    by (simp add: update_trade_pnl_def Let_def update_conv' update_watermarks_keeps)
  show ?thesis
    using assms
    by (auto simp: monitor_paper_trade_def Let_def update_trade_pnl_frame others written
        split: option.splits)
qed

text \<open>
  C7, witness: the paused store, price 90 against entry 100 at leverage 2 (pnl 20 per
  cent, above the take-profit of 10) and indicator 60 (below the close threshold 65):
  after the tick XUSDT is still open, nothing is published, and its stored trade has
  \<open>pnl_percent = 20\<close> and \<open>pnl_usdt = 3 / 5\<close>, where both were 0 before.
\<close>

theorem monitor_paper_trade_paused_witness:
  "global_pause_active (controls paused_state) \<and>
   map_of (active_trades paused_state) ''XUSDT'' = Some demo_trade \<and>
   pnl_percent demo_trade = 0 \<and> pnl_usdt demo_trade = 0 \<and>
   (\<exists>s'. monitor_paper_trade default_config 60 ''XUSDT'' demo_trade paused_state = Inr s' \<and>
         map fst (active_trades s') = [''XUSDT''] \<and>
         events s' = [] \<and>
         (\<exists>t'. map_of (active_trades s') ''XUSDT'' = Some t' \<and>
               pnl_percent t' = 20 \<and> pnl_usdt t' = 3 / 5))"
proof -
  have p: "global_pause_active (controls paused_state)"
    by (simp add: paused_state_def)
  have c: "map_of (coin_data paused_state) ''XUSDT''
             = Some \<lparr>symbol = ''XUSDT'', price = 90, change_24h = 12, high_24h = 110\<rparr>"
    by (simp add: paused_state_def)
  have a: "map_of (active_trades paused_state) ''XUSDT'' = Some demo_trade"
    by (simp add: paused_state_def demo_state_def)
  have t: "entry_price demo_trade = 100 \<and> leverage demo_trade = 2 \<and> trade_amount demo_trade = 3"
    by (simp add: demo_trade_def new_trade_def default_config_def)
  have z: "pnl_percent demo_trade = 0 \<and> pnl_usdt demo_trade = 0"
    by (simp add: demo_trade_def new_trade_def)
  have k: "map fst (active_trades paused_state) = [''XUSDT'']"
    by (simp add: paused_state_def demo_state_def)
  have e: "events paused_state = []"
    by (simp add: paused_state_def demo_state_def init_state_def)
  have r: "\<exists>s'. monitor_paper_trade default_config 60 ''XUSDT'' demo_trade paused_state = Inr s' \<and>
         map fst (active_trades s') = [''XUSDT''] \<and>
         events s' = [] \<and>
         (\<exists>t'. map_of (active_trades s') ''XUSDT'' = Some t' \<and>
               pnl_percent t' = 20 \<and> pnl_usdt t' = 3 / 5)"
    using monitor_paper_trade_paused[where s = paused_state and cfg = default_config
        and now = 60 and symb = "''XUSDT''" and t = demo_trade, OF p]
    by (cases "monitor_paper_trade default_config 60 ''XUSDT'' demo_trade paused_state")
       (simp_all add: c a t k e del: map_of_eq_Some_iff)
  show ?thesis
    using p a z r by blast
qed

subsection \<open>C8: running pnl and worst-excursion watermarks\<close>

text \<open>
  C8, as the code has it: for an active trade, \<open>update_trade_pnl\<close> overwrites
  \<open>pnl_percent\<close> and \<open>pnl_usdt\<close> with the supplied values. When the supplied indicator
  is a number, each of the three watermarks becomes the minimum of its previous value
  and the supplied value; when it is \<open>None\<close> or not a number, the three watermarks are
  left as they were. In both cases no watermark increases.
\<close>

theorem update_trade_pnl_watermarks:
  assumes "map_of (active_trades s) symb = Some t"
  shows "\<exists>t'. map_of (active_trades (update_trade_pnl symb p_pct p_usdt current_rsi s)) symb
                 = Some t' \<and>
     pnl_percent t' = p_pct \<and> pnl_usdt t' = p_usdt \<and>
     (case current_rsi of
        PNum r \<Rightarrow> max_neg_pnl_pct t' = min (max_neg_pnl_pct t) p_pct \<and>
                  max_neg_pnl_usdt t' = min (max_neg_pnl_usdt t) p_usdt \<and>
                  max_neg_rsi t' = min (max_neg_rsi t) r
      | _ \<Rightarrow> max_neg_pnl_pct t' = max_neg_pnl_pct t \<and>
              max_neg_pnl_usdt t' = max_neg_pnl_usdt t \<and>
              max_neg_rsi t' = max_neg_rsi t) \<and>
     max_neg_pnl_pct t' \<le> max_neg_pnl_pct t \<and>
     max_neg_pnl_usdt t' \<le> max_neg_pnl_usdt t \<and>
     max_neg_rsi t' \<le> max_neg_rsi t"
  using assms
  by (cases current_rsi)
     (auto simp: update_trade_pnl_def update_watermarks_def Let_def update_conv' min_def)

text \<open>
  C8, witness: the trade on XUSDT (watermarks 0, 0 and 96) updated with pnl -5 per cent,
  -1 USDT and indicator 60.
\<close>

theorem update_trade_pnl_watermarks_witness:
  "map_of (active_trades demo_state) ''XUSDT'' = Some demo_trade \<and>
   (\<exists>t'. map_of (active_trades (update_trade_pnl ''XUSDT'' (-5) (-1) (PNum 60) demo_state))
            ''XUSDT'' = Some t' \<and>
         pnl_percent t' = -5 \<and> pnl_usdt t' = -1 \<and>
         max_neg_pnl_pct t' = -5 \<and> max_neg_pnl_usdt t' = -1 \<and> max_neg_rsi t' = 60)"
proof -
  have w: "max_neg_pnl_pct demo_trade = 0 \<and> max_neg_pnl_usdt demo_trade = 0 \<and>
           max_neg_rsi demo_trade = 96"
    by (simp add: demo_trade_def new_trade_def)
  from update_trade_pnl_watermarks[OF demo_lookup, where p_pct = "-5" and p_usdt = "-1"
      and current_rsi = "PNum 60"]
  show ?thesis using demo_lookup w by auto
qed

text \<open>
  C8, counterexample: the same trade updated with pnl -5 per cent and no indicator
  value: the pnl is overwritten, and the watermark stays 0, which is not the minimum of
  0 and -5.
\<close>

theorem update_trade_pnl_skips_watermarks_without_indicator:
  "map_of (active_trades demo_state) ''XUSDT'' = Some demo_trade \<and>
   max_neg_pnl_pct demo_trade = 0 \<and>
   (\<exists>t'. map_of (active_trades (update_trade_pnl ''XUSDT'' (-5) (-1) PNone demo_state))
            ''XUSDT'' = Some t' \<and>
         pnl_percent t' = -5 \<and> max_neg_pnl_pct t' = 0 \<and>
         max_neg_pnl_pct t' \<noteq> min (max_neg_pnl_pct demo_trade) (-5))"
  by (simp add: update_trade_pnl_def update_watermarks_def demo_state_def demo_trade_def
      new_trade_def Let_def)

subsection \<open>C9: tripping and lifting the breaker\<close>

text \<open>
  C9: \<open>activate_global_pause\<close> and \<open>lift_global_pause\<close> are idempotent, a second call
  in a row changing nothing and publishing nothing. Tripping the breaker (from a store
  where the pause is not active) sets \<open>global_pause_active\<close>, clears
  \<open>trade_execution_enabled\<close> and publishes one pause-triggered event. Lifting changes
  only \<open>global_pause_active\<close> (and publishes the pause-lifted event when the pause was
  active), so \<open>trade_execution_enabled\<close> is as before: after trip then lift it is
  still cleared.
\<close>

theorem global_pause_idempotent_manual_rearm:
  assumes "\<not> global_pause_active (controls s)"
  shows "activate_global_pause cfg m (activate_global_pause cfg n s')
           = activate_global_pause cfg n s'
       \<and> lift_global_pause (lift_global_pause s') = lift_global_pause s'
       \<and> global_pause_active (controls (activate_global_pause cfg n s))
       \<and> \<not> trade_execution_enabled (controls (activate_global_pause cfg n s))
       \<and> events (activate_global_pause cfg n s) = events s @ [GLOBAL_PAUSE_TRIGGERED n]
       \<and> lift_global_pause s' =
           s'\<lparr>controls := (controls s')\<lparr>global_pause_active := False\<rparr>,
              events := events s' @ (if global_pause_active (controls s')
                                    then [GLOBAL_PAUSE_LIFTED] else [])\<rparr>
       \<and> trade_execution_enabled (controls (lift_global_pause s'))
           = trade_execution_enabled (controls s')
       \<and> \<not> global_pause_active
             (controls (lift_global_pause (activate_global_pause cfg n s)))
       \<and> \<not> trade_execution_enabled
             (controls (lift_global_pause (activate_global_pause cfg n s)))"
  using assms
  by (simp add: activate_global_pause_def lift_global_pause_def publish_def Let_def)

text \<open>
  C9, witness: the armed store, tripped with a loss count of 3, tripped again with 5,
  then lifted twice.
\<close>

theorem global_pause_idempotent_manual_rearm_witness:
  "\<not> global_pause_active (controls armed_state) \<and>
   trade_execution_enabled (controls armed_state) \<and>
   events (activate_global_pause default_config 5
             (activate_global_pause default_config 3 armed_state))
     = [GLOBAL_PAUSE_TRIGGERED 3] \<and>
   lift_global_pause (lift_global_pause armed_state) = lift_global_pause armed_state \<and>
   \<not> global_pause_active
       (controls (lift_global_pause (activate_global_pause default_config 3 armed_state))) \<and>
   \<not> trade_execution_enabled
       (controls (lift_global_pause (activate_global_pause default_config 3 armed_state)))"
proof -
  have h: "\<not> global_pause_active (controls armed_state)"
    by (simp add: armed_state_def demo_state_def init_state_def)
  have x: "trade_execution_enabled (controls armed_state)"
    by (simp add: armed_state_def)
  have e: "events armed_state = []"
    by (simp add: armed_state_def demo_state_def init_state_def)
  note inst = global_pause_idempotent_manual_rearm[OF h, where cfg = default_config
      and m = 5 and n = 3 and s' = armed_state]
  have i1: "activate_global_pause default_config 5
              (activate_global_pause default_config 3 armed_state)
            = activate_global_pause default_config 3 armed_state"
    using inst by (elim conjE) assumption
  have i5: "events (activate_global_pause default_config 3 armed_state)
            = events armed_state @ [GLOBAL_PAUSE_TRIGGERED 3]"
    using inst by (elim conjE) assumption
  have a: "events (activate_global_pause default_config 5
                     (activate_global_pause default_config 3 armed_state))
             = [GLOBAL_PAUSE_TRIGGERED 3]"
    by (simp only: i1 i5 e append_Nil)
  have b: "lift_global_pause (lift_global_pause armed_state) = lift_global_pause armed_state"
    using inst by (elim conjE) assumption
  have c: "\<not> global_pause_active
               (controls (lift_global_pause
                  (activate_global_pause default_config 3 armed_state)))"
    using inst by (elim conjE) assumption
  have d: "\<not> trade_execution_enabled
               (controls (lift_global_pause
                  (activate_global_pause default_config 3 armed_state)))"
    using inst by (elim conjE) assumption
  show ?thesis
    by (intro conjI h x a b c d)
qed

subsection \<open>C10: a closed trade with zero pnl\<close>



subsection \<open>C6: the paper round trip\<close>

text \<open>
  C6: open a non-Live trade on X at entry price 100 with notional \<open>A\<close> (the resolved
  amount, covered by the balance) and leverage \<open>L\<close>; run one monitoring tick at instant
  \<open>t1\<close> with X quoted at 90; then call \<open>close_trade\<close> at instant \<open>t2\<close>. The tick does
  not raise; the closed trade carries \<open>pnl_percent = 10 * L\<close> and
  \<open>pnl_usdt = A * L * (10 / 100)\<close>; the balance has grown by exactly that pnl; exactly
  one cooldown-add event for X was published, with expiry the close time plus
  \<open>DEFAULT_COOLDOWN_PERIOD\<close>, where the close time is \<open>t1\<close> when the tick itself closed
  the trade and \<open>t2\<close> otherwise; and once the subscriber of that event has run, X is
  on cooldown at every instant before the expiry.
\<close>

theorem paper_round_trip:
  assumes absent: "map_of (active_trades s) X = None"
    and paper: "lower src \<noteq> ''live''"
    and funds: "resolve_amount cfg amount s \<le> balance s"
    and quote: "map_option price (map_of (coin_data s) X) = Some 90"
  shows "let A = resolve_amount cfg amount s; L = LEVERAGE cfg; P = DEFAULT_COOLDOWN_PERIOD cfg;
             opened = open_trade cfg t0 X 100 (PNum 96) change src n lm amount s;
             t = new_trade cfg t0 100 (PNum 96) src n A
         in fst opened \<and> map_of (active_trades (snd opened)) X = Some t \<and>
            (case monitor_paper_trade cfg t1 X t (snd opened) of
               Inl e \<Rightarrow> False
             | Inr s2 \<Rightarrow>
                 let s3 = close_trade cfg t2 X reason 90 exit_rsi s2
                 in balance s3 = balance s + A * L * (10 / 100) \<and>
                    (\<exists>td r er tc. (tc = t1 \<or> tc = t2) \<and>
                       events s3 = events s @
                         [TRADE_OPENED t, ADD_TO_COOLDOWN X r (tc + P),
                          TRADE_CLOSED td r 90 er (balance s + A * L * (10 / 100)),
                          STATS_UPDATED, PORTFOLIO_UPDATED] \<and>
                       pnl_percent td = 10 * L \<and> pnl_usdt td = A * L * (10 / 100) \<and>
                       (\<forall>now. is_on_cooldown now X (handle_add_to_cooldown X r (tc + P) s3)
                                \<longleftrightarrow> now < tc + P)))"
proof -
  define A where "A = resolve_amount cfg amount s"
  define L where "L = LEVERAGE cfg"
  define P where "P = DEFAULT_COOLDOWN_PERIOD cfg"
  define t where "t = new_trade cfg t0 100 (PNum 96) src n A"
  define s1 where "s1 = snd (open_trade cfg t0 X 100 (PNum 96) change src n lm amount s)"
  define rsi where "rsi = (case map_of (rsi_data s1) X of Some v \<Rightarrow> v | None \<Rightarrow> PNone)"
  define t' where "t' = update_watermarks (10 * L) (A * L * (10 / 100)) rsi
                           (t\<lparr>pnl_percent := 10 * L, pnl_usdt := A * L * (10 / 100)\<rparr>)"
  define s1' where "s1' = update_trade_pnl X (10 * L) (A * L * (10 / 100)) rsi s1"
  have nf: "\<not> (lower src \<noteq> ''live'' \<and> balance s < resolve_amount cfg amount s)"
    using funds by simp
  note op = open_trade_paper[OF absent nf, of t0 100 "PNum 96" change n lm]
  have ok: "fst (open_trade cfg t0 X 100 (PNum 96) change src n lm amount s)" by (rule op(1))
  have at1: "map_of (active_trades s1) X = Some t"
    unfolding s1_def t_def A_def by (simp add: op(2) update_conv')
  have te: "entry_price t = 100" "leverage t = L" "trade_amount t = A" "source t = src"
    by (simp_all add: t_def new_trade_def L_def)
  have q1: "map_option price (map_of (coin_data s1) X) = Some 90"
    unfolding s1_def by (simp add: op(5) quote)
  have at1': "map_of (active_trades s1') X = Some t'"
    unfolding s1'_def t'_def by (simp add: update_trade_pnl_def at1 Let_def update_conv')
  have t'f: "pnl_percent t' = 10 * L" "pnl_usdt t' = A * L * (10 / 100)" "lower (source t') \<noteq> ''live''"
    unfolding t'_def by (simp_all add: update_watermarks_keeps te paper)
  have b1': "balance s1' = balance s" "events s1' = events s @ [TRADE_OPENED t]"
    unfolding s1'_def by (simp_all add: update_trade_pnl_frame s1_def op(3,4) t_def A_def)
  have tick: "monitor_paper_trade cfg t1 X t s1 =
          (if \<not> global_pause_active (controls s1')
           then if 10 * L \<ge> TAKE_PROFIT_PERCENT cfg
                then Inr (close_trade cfg t1 X (target_profit_reason cfg) 90 (or_zero rsi) s1')
                else if rsi_at_or_below rsi (TRADE_CLOSE_RSI cfg) \<and> A * L * (10 / 100) > 0
                then Inr (close_trade cfg t1 X (rsi_close_reason cfg) 90 rsi s1')
                else Inr s1'
           else Inr s1')"
    using q1 by (auto simp: monitor_paper_trade_def Let_def te s1'_def rsi_def)
  have closed: "\<And>tc r er. 
     let s2 = close_trade cfg tc X r 90 er s1' in
       balance s2 = balance s + A * L * (10 / 100) \<and>
       events s2 = events s @ [TRADE_OPENED t, ADD_TO_COOLDOWN X r (tc + P),
                          TRADE_CLOSED t' r 90 er (balance s + A * L * (10 / 100)),
                          STATS_UPDATED, PORTFOLIO_UPDATED] \<and>
       map_of (active_trades s2) X = None"
    using close_trade_paper[OF at1' t'f(3)] by (simp add: Let_def t'f b1' P_def)
  have goal: "case monitor_paper_trade cfg t1 X t s1 of
               Inl e \<Rightarrow> False
             | Inr s2 \<Rightarrow>
                 let s3 = close_trade cfg t2 X reason 90 exit_rsi s2
                 in balance s3 = balance s + A * L * (10 / 100) \<and>
                    (\<exists>td r er tc. (tc = t1 \<or> tc = t2) \<and>
                       events s3 = events s @
                         [TRADE_OPENED t, ADD_TO_COOLDOWN X r (tc + P),
                          TRADE_CLOSED td r 90 er (balance s + A * L * (10 / 100)),
                          STATS_UPDATED, PORTFOLIO_UPDATED] \<and>
                       pnl_percent td = 10 * L \<and> pnl_usdt td = A * L * (10 / 100) \<and>
                       (\<forall>now. is_on_cooldown now X (handle_add_to_cooldown X r (tc + P) s3)
                                \<longleftrightarrow> now < tc + P))"
  proof -
    have dis: "(\<exists>r er. monitor_paper_trade cfg t1 X t s1 = Inr (close_trade cfg t1 X r 90 er s1'))
               \<or> monitor_paper_trade cfg t1 X t s1 = Inr s1'"
      unfolding tick by auto
    then consider (a) r er where "monitor_paper_trade cfg t1 X t s1 = Inr (close_trade cfg t1 X r 90 er s1')"
      | (b) "monitor_paper_trade cfg t1 X t s1 = Inr s1'"
      by blast
    then show ?thesis
    proof cases
      case a
      have same: "close_trade cfg t2 X reason 90 exit_rsi (close_trade cfg t1 X r 90 er s1')
                  = close_trade cfg t1 X r 90 er s1'"
        using closed[of t1 r er] by (simp add: Let_def close_trade_absent)
      show ?thesis
        unfolding a using closed[of t1 r er] t'f
        by (simp add: Let_def same cooldown_after_handler)
    next
      case b
      show ?thesis
        unfolding b using closed[of t2 reason exit_rsi] t'f
        by (simp add: Let_def cooldown_after_handler)
    qed
  qed
  show ?thesis
    using ok at1 goal
    unfolding Let_def A_def[symmetric] L_def[symmetric] P_def[symmetric] t_def[symmetric] s1_def[symmetric]
    by simp
qed

text \<open>
  C6, witness: the default configuration (leverage 2, fixed amount 3) on the funded
  store; the tick at instant 60 reaches the take-profit and closes, so the later call at
  instant 70 finds nothing to close, and the balance is 1000 + 3 * 2 * (10 / 100).
\<close>

theorem paper_round_trip_witness:
  "map_of (active_trades quoted_state) ''XUSDT'' = None \<and>
   lower ''Bot'' \<noteq> ''live'' \<and>
   resolve_amount default_config None quoted_state \<le> balance quoted_state \<and>
   map_option price (map_of (coin_data quoted_state) ''XUSDT'') = Some 90 \<and>
   fst (open_trade default_config 50 ''XUSDT'' 100 (PNum 96) (PNum 12) ''Bot'' 1 None None
          quoted_state) \<and>
   (\<exists>s2. monitor_paper_trade default_config 60 ''XUSDT''
            (new_trade default_config 50 100 (PNum 96) ''Bot'' 1 3)
            (snd (open_trade default_config 50 ''XUSDT'' 100 (PNum 96) (PNum 12) ''Bot'' 1 None
                    None quoted_state)) = Inr s2 \<and>
         balance (close_trade default_config 70 ''XUSDT'' (Lit ''Manual Close'') 90 (PNum 50) s2)
           = 1000 + 3 * 2 * (10 / 100))"
proof -
  have a: "map_of (active_trades quoted_state) ''XUSDT'' = None"
    by (simp add: quoted_state_def init_state_def)
  have r: "resolve_amount default_config None quoted_state = 3"
    by (simp add: resolve_amount_def default_config_def)
  have b: "balance quoted_state = 1000"
    by (simp add: quoted_state_def)
  have f: "resolve_amount default_config None quoted_state \<le> balance quoted_state"
    by (simp add: r b)
  have q: "map_option price (map_of (coin_data quoted_state) ''XUSDT'') = Some 90"
    by (simp add: quoted_state_def)
  have l: "LEVERAGE default_config = 2"
    by (simp add: default_config_def)
  note inst = paper_round_trip[OF a lower_Bot f q, where ?t0.0 = 50 and change = "PNum 12"
      and n = 1 and lm = None and ?t1.0 = 60 and ?t2.0 = 70
      and reason = "Lit ''Manual Close''" and exit_rsi = "PNum 50"]
  have ok: "fst (open_trade default_config 50 ''XUSDT'' 100 (PNum 96) (PNum 12) ''Bot'' 1 None
                   None quoted_state)"
    using inst by (simp add: Let_def)
  have tick: "\<exists>s2. monitor_paper_trade default_config 60 ''XUSDT''
                (new_trade default_config 50 100 (PNum 96) ''Bot'' 1 3)
                (snd (open_trade default_config 50 ''XUSDT'' 100 (PNum 96) (PNum 12) ''Bot'' 1
                        None None quoted_state)) = Inr s2 \<and>
              balance (close_trade default_config 70 ''XUSDT'' (Lit ''Manual Close'') 90
                         (PNum 50) s2) = 1000 + 3 * 2 * (10 / 100)"
    using inst
    by (cases "monitor_paper_trade default_config 60 ''XUSDT''
                 (new_trade default_config 50 100 (PNum 96) ''Bot'' 1 3)
                 (snd (open_trade default_config 50 ''XUSDT'' 100 (PNum 96) (PNum 12) ''Bot'' 1
                         None None quoted_state))")
       (simp_all add: Let_def r b l)
  show ?thesis
    by (intro conjI a lower_Bot f q ok tick)
qed

subsection \<open>C5: the watch-list in a broad rally\<close>

text \<open>
  C5, as the code has it: for every coin-data map of 150 coins (distinct symbols, each
  entry stored under its own symbol) that all have a 24h change at or above the base
  threshold, with no trade and no cooldown, \<open>get_symbols_to_monitor\<close> raises the
  effective threshold to the change of the 100th-ranked coin and returns, each symbol
  once, exactly the coins whose change is at or above that threshold. These are at
  least 100 symbols, and exactly 100 when the 101st-ranked coin's change is strictly
  below the 100th's. The lowest change in the result equals the raised threshold, and
  the result is sorted by 24h change, descending. This holds for every order in which
  the intermediate set is listed.
\<close>

theorem watch_list_in_rally:
  assumes n150: "length (coin_data s) = 150"
    and keys: "distinct (map fst (coin_data s))"
    and syms: "\<forall>(k, c) \<in> set (coin_data s). symbol c = k"
    and all_hot: "\<forall>(k, c) \<in> set (coin_data s). change_24h c \<ge> RSI_HOT_COIN_THRESHOLD cfg"
    and idle: "active_trades s = []" "cooldowned_coins s = []"
    and enum: "\<forall>xs. set (enum xs) = set xs \<and> distinct (enum xs)"
  shows "let r = get_symbols_to_monitor cfg enum s; d = dynamic_threshold cfg s
         in d = change_24h (all_coins_sorted s ! 99) \<and>
            set r = symbol ` {c \<in> snd ` set (coin_data s). change_24h c \<ge> d} \<and>
            distinct r \<and>
            100 \<le> length r \<and>
            (change_24h (all_coins_sorted s ! 100) < d \<longrightarrow> length r = 100) \<and>
            Min (change_of s ` set r) = d \<and>
            sorted_wrt (\<lambda>a b. change_of s a \<ge> change_of s b) r"
proof -
  define r where "r = get_symbols_to_monitor cfg enum s"
  define d where "d = dynamic_threshold cfg s"
  define srt where "srt = all_coins_sorted s"
  have len: "length srt = 150" by (simp add: srt_def all_coins_sorted_def n150)
  have setsrt: "set srt = snd ` set (coin_data s)" by (simp add: srt_def all_coins_sorted_def)
  have big: "length (coin_data s) > 100" using n150 by simp
  have d99: "d = change_24h (srt ! 99)"
    unfolding d_def srt_def by (rule threshold_raised[OF all_hot big])
  note wl = watch_list_set[OF all_hot idle enum]
  have rset: "set r = symbol ` {c \<in> snd ` set (coin_data s). change_24h c \<ge> d}"
    unfolding r_def d_def by (rule wl(1))
  have rdist: "distinct r" unfolding r_def by (rule wl(2))
  have rsorted: "sorted_wrt (\<lambda>a b. change_of s a \<ge> change_of s b) r"
    unfolding r_def by (rule wl(3))
  have rlen: "length r = length (filter (\<lambda>c. change_24h c \<ge> d) srt)"
    unfolding r_def d_def srt_def by (rule watch_list_length[OF all_hot idle enum keys syms])
  have top: "\<And>i. i < 100 \<Longrightarrow> change_24h (srt ! i) \<ge> d"
    unfolding d99 srt_def using len by (intro sorted_desc_nth) (simp_all add: srt_def)
  have ge100: "100 \<le> length r"
    unfolding rlen using len top by (intro length_filter_prefix) simp_all
  have eq100: "length r = 100" if lt: "change_24h (srt ! 100) < d"
  proof -
    have low: "\<And>i. 100 \<le> i \<Longrightarrow> i < length srt \<Longrightarrow> \<not> change_24h (srt ! i) \<ge> d"
    proof -
      fix i assume i: "100 \<le> i" "i < length srt"
      have "change_24h (srt ! i) \<le> change_24h (srt ! 100)"
        unfolding srt_def using i by (intro sorted_desc_nth) (simp_all add: srt_def)
      with lt show "\<not> change_24h (srt ! i) \<ge> d" by simp
    qed
    have "filter (\<lambda>c. change_24h c \<ge> d) srt = take 100 srt"
      using len top low by (intro filter_prefix) simp_all
    then show ?thesis unfolding rlen using len by simp
  qed
  have chg: "\<And>c. c \<in> snd ` set (coin_data s) \<Longrightarrow> change_of s (symbol c) = change_24h c"
    by (rule change_of_symbol[OF keys syms])
  have mem99: "srt ! 99 \<in> snd ` set (coin_data s)"
    using len setsrt nth_mem[of 99 srt] by simp
  have min: "Min (change_of s ` set r) = d"
  proof (rule Min_eqI)
    show "finite (change_of s ` set r)" by simp
    show "d \<le> y" if "y \<in> change_of s ` set r" for y
    proof -
      from that obtain c where c: "c \<in> snd ` set (coin_data s)" "d \<le> change_24h c"
        and y: "y = change_of s (symbol c)"
        unfolding rset by blast
      show ?thesis unfolding y chg[OF c(1)] by (rule c(2))
    qed
    have "symbol (srt ! 99) \<in> set r" unfolding rset using mem99 d99 by auto
    moreover have "change_of s (symbol (srt ! 99)) = d" using chg[OF mem99] d99 by simp
    ultimately show "d \<in> change_of s ` set r" by force
  qed
  show ?thesis
    unfolding Let_def r_def[symmetric] d_def[symmetric] srt_def[symmetric]
    using d99 rset rdist ge100 eq100 min rsorted by blast
qed

text \<open>
  C5, witness: the ramp of 150 coins with changes 10 to 159, the set listed by
  \<open>remdups\<close>. The 100th-ranked change is 60, the 101st is 59, and the watch-list
  holds exactly the 100 coins with changes 60 to 159.
\<close>

theorem watch_list_in_rally_witness:
  "length (coin_data ramp_rally) = 150 \<and>
   distinct (map fst (coin_data ramp_rally)) \<and>
   active_trades ramp_rally = [] \<and> cooldowned_coins ramp_rally = [] \<and>
   hot_coins_above_base default_config ramp_rally = all_coins_sorted ramp_rally \<and>
   dynamic_threshold default_config ramp_rally = 60 \<and>
   length (get_symbols_to_monitor default_config remdups ramp_rally) = 100 \<and>
   Min (change_of ramp_rally ` set (get_symbols_to_monitor default_config remdups ramp_rally))
     = 60"
proof -
  have hot: "\<forall>(k, c) \<in> set (coin_data ramp_rally).
               change_24h c \<ge> RSI_HOT_COIN_THRESHOLD default_config"
    unfolding ramp_rally_def by (rule rally_hot) simp
  note f = rally_facts[of "\<lambda>i. 10 + real i", folded ramp_rally_def]
  note inst = watch_list_in_rally[OF f(1) f(2) f(3) hot f(4) f(5) remdups_enum,
      unfolded Let_def]
  have a: "dynamic_threshold default_config ramp_rally
             = change_24h (all_coins_sorted ramp_rally ! 99)"
    using inst by (elim conjE) assumption
  have a': "dynamic_threshold default_config ramp_rally = 60"
    unfolding a by (rule ramp_rank(1))
  have b: "change_24h (all_coins_sorted ramp_rally ! 100)
             < dynamic_threshold default_config ramp_rally
           \<longrightarrow> length (get_symbols_to_monitor default_config remdups ramp_rally) = 100"
    using inst by (elim conjE) assumption
  have b': "length (get_symbols_to_monitor default_config remdups ramp_rally) = 100"
    using b by (simp add: a' ramp_rank(2))
  have c: "Min (change_of ramp_rally
                  ` set (get_symbols_to_monitor default_config remdups ramp_rally))
             = dynamic_threshold default_config ramp_rally"
    using inst by (elim conjE) assumption
  have c': "Min (change_of ramp_rally
                  ` set (get_symbols_to_monitor default_config remdups ramp_rally)) = 60"
    unfolding c by (rule a')
  show ?thesis
    by (intro conjI f(1) f(2) f(4) f(5) hot_all[OF hot] a' b' c')
qed

text \<open>
  C5, counterexample: 150 coins that all have the change 20. The 100th-ranked change
  is 20, every coin reaches it, and the watch-list holds all 150 symbols: it is not
  capped at 100.
\<close>

theorem watch_list_exceeds_cap_on_ties:
  "length (coin_data flat_rally) = 150 \<and>
   hot_coins_above_base default_config flat_rally = all_coins_sorted flat_rally \<and>
   active_trades flat_rally = [] \<and> cooldowned_coins flat_rally = [] \<and>
   length (get_symbols_to_monitor default_config remdups flat_rally) = 150 \<and>
   \<not> length (get_symbols_to_monitor default_config remdups flat_rally) \<le> 100"
proof -
  have hot: "\<forall>(k, c) \<in> set (coin_data flat_rally).
               change_24h c \<ge> RSI_HOT_COIN_THRESHOLD default_config"
    unfolding flat_rally_def by (rule rally_hot) simp
  note f = rally_facts[of "\<lambda>i. 20", folded flat_rally_def]
  have all20: "\<forall>c \<in> set (all_coins_sorted flat_rally). change_24h c = 20"
    by (auto simp: all_coins_sorted_def flat_rally_def rally_def)
  have lsrt: "length (all_coins_sorted flat_rally) = 150"
    by (simp add: all_coins_sorted_def f(1))
  have "all_coins_sorted flat_rally ! 99 \<in> set (all_coins_sorted flat_rally)"
    using lsrt by (intro nth_mem) simp
  with all20 have "change_24h (all_coins_sorted flat_rally ! 99) = 20" by blast
  then have d: "dynamic_threshold default_config flat_rally = 20"
    using threshold_raised[OF hot] f(1) by simp
  have "length (get_symbols_to_monitor default_config remdups flat_rally)
          = length (filter (\<lambda>c. change_24h c \<ge> 20) (all_coins_sorted flat_rally))"
    using watch_list_length[OF hot f(4) f(5) remdups_enum f(2) f(3)] d by simp
  also have "\<dots> = 150" using all20 lsrt by (simp add: filter_id_conv)
  finally have n: "length (get_symbols_to_monitor default_config remdups flat_rally) = 150" .
  show ?thesis
    using n f(1,4,5) hot_all[OF hot] by simp
qed

end
